theory Spec2Isabelle
  imports Main
begin

section \<open>Handler kinds and handler frames\<close>

text \<open>
  A kind (\<^verbatim>\<open>mph_kind_t\<close>) is a pointer to a string and is compared by identity. The three
  globals \<^verbatim>\<open>MPH_FINALLY\<close>, \<^verbatim>\<open>MPH_UNDER\<close>, \<^verbatim>\<open>MPH_MASK\<close> point to three distinct literals; every
  other kind is a pointer of the client, \<open>Kind n\<close>.
\<close>

datatype mph_kind_t = MPH_FINALLY | MPH_UNDER | MPH_MASK | Kind nat

text \<open>
  Frames live in automatic storage and are linked by pointers, so the model has a store from
  addresses to frames; a frame pointer is \<open>addr option\<close> with \<open>None\<close> for \<^verbatim>\<open>NULL\<close>. An
  untyped pointer (\<^verbatim>\<open>void*\<close>) is a number, \<open>0\<close> for \<^verbatim>\<open>NULL\<close>.

  A frame is the header \<^verbatim>\<open>mph_handler_t\<close> (\<open>parent\<close>, \<open>prompt\<close>, \<open>kind\<close>, \<open>hdata\<close>) followed by the
  words that \<^verbatim>\<open>mph_handler_under_t\<close> and \<^verbatim>\<open>mph_handler_mask_t\<close> put behind it. Both structs
  start with the header and continue with one \<^verbatim>\<open>mph_kind_t\<close>, so \<^verbatim>\<open>under\<close> and \<^verbatim>\<open>mask\<close> are the
  same word of the frame: the search casts a frame pointer to either struct by the header
  kind alone. \<open>mfrom\<close> is the field \<^verbatim>\<open>from\<close>. Fields that an installer does not write keep
  what the store held before.
\<close>

type_synonym addr = nat
type_synonym voidp = nat

record frame =
  parent :: "addr option"
  prompt :: "nat option"
  kind :: mph_kind_t
  hdata :: voidp
  under :: mph_kind_t
  mfrom :: nat

definition mask_k :: "frame \<Rightarrow> mph_kind_t" where
  "mask_k h = under h"

text \<open>
  The state: the frames, the thread-local \<^verbatim>\<open>_mph_top\<close>, and the memory of the client
  program, which the library never touches. \<open>mp_waiting\<close> belongs to the prompt substrate
  (see there): the handler-side functions whose resume has not returned yet, the latest
  first, each with the prompt it resumed and the value it returns itself, if any.
\<close>

record 'u state =
  heap :: "addr \<Rightarrow> frame"
  mph_top_var :: "addr option"
  user :: 'u
  mp_waiting :: "(nat \<times> voidp option) list"

definition mph_is_prompt_handler :: "frame \<Rightarrow> bool" where
  "mph_is_prompt_handler h = (prompt h \<noteq> None)"

definition mph_top :: "'u state \<Rightarrow> addr option" where
  "mph_top s = mph_top_var s"

definition mph_parent :: "'u state \<Rightarrow> addr option \<Rightarrow> addr option" where
  "mph_parent s handler =
     (case handler of None \<Rightarrow> mph_top s | Some a \<Rightarrow> parent (heap s a))"

definition mph_kind :: "'u state \<Rightarrow> addr \<Rightarrow> mph_kind_t" where
  "mph_kind s handler = kind (heap s handler)"

definition mph_data :: "'u state \<Rightarrow> addr \<Rightarrow> voidp" where
  "mph_data s handler = hdata (heap s handler)"

section \<open>Finding the innermost handler\<close>

text \<open>
  The inner loop of the under branch, \<^verbatim>\<open>do { h = h->parent; } while (h != NULL &&
  h->kind != ukind)\<close>, started at the frame \<open>a\<close>. The chain of parents may be cyclic, so the
  loops are partial: \<open>None\<close> is a search that never returns, \<open>Some None\<close> is \<^verbatim>\<open>NULL\<close>.
\<close>

partial_function (option) under_skip ::
  "(addr \<Rightarrow> frame) \<Rightarrow> mph_kind_t \<Rightarrow> addr \<Rightarrow> addr option option" where
  "under_skip hp ukind a =
     (case parent (hp a) of
        None \<Rightarrow> Some None
      | Some b \<Rightarrow> if kind (hp b) \<noteq> ukind then under_skip hp ukind b else Some (Some b))"

text \<open>
  The loop of \<^verbatim>\<open>mph_find\<close>. \<open>mask_level\<close> is a \<^verbatim>\<open>size_t\<close>; it grows by one per frame at most,
  so it stays below the number of frames and never wraps.
\<close>

partial_function (option) find_loop ::
  "(addr \<Rightarrow> frame) \<Rightarrow> mph_kind_t \<Rightarrow> addr option \<Rightarrow> nat \<Rightarrow> addr option option" where
  "find_loop hp knd h mask_level =
     (case h of
        None \<Rightarrow> Some None
      | Some a \<Rightarrow>
          if knd = kind (hp a) then
            (if mask_level \<le> 0 then Some (Some a)
             else find_loop hp knd (parent (hp a)) (mask_level - 1))
          else if kind (hp a) = MPH_UNDER then
            (case under_skip hp (under (hp a)) a of
               None \<Rightarrow> None
             | Some None \<Rightarrow> Some None
             | Some (Some b) \<Rightarrow> find_loop hp knd (parent (hp b)) mask_level)
          else if kind (hp a) = MPH_MASK then
            (if mask_k (hp a) = knd \<and> mfrom (hp a) \<le> mask_level
             then find_loop hp knd (parent (hp a)) (mask_level + 1)
             else find_loop hp knd (parent (hp a)) mask_level)
          else find_loop hp knd (parent (hp a)) mask_level)"

definition mph_find :: "'u state \<Rightarrow> mph_kind_t \<Rightarrow> addr option option" where
  "mph_find s knd = find_loop (heap s) knd (mph_top_var s) 0"

section \<open>Scoped installation of a frame\<close>

text \<open>
  The file builds in two ways. With \<^verbatim>\<open>MP_HAS_TRY\<close> (C++, the flag \<open>has_try\<close>) a frame is
  installed by the constructor of \<^verbatim>\<open>mph_raii_with_handler_t\<close> and removed by its destructor,
  which also runs when an exception passes; an unwind is the exception
  \<^verbatim>\<open>mph_unwind_exception\<close>. Without it (C) the macro \<^verbatim>\<open>mph_with_handler\<close> is a \<^verbatim>\<open>for\<close> statement
  whose last clause runs only when the body falls through, and an unwind is a yield to the
  prompt that never comes back.
\<close>

record mph_resume_env_t =
  result :: voidp
  unwind :: bool

record 'u mph_unwind_exception =
  target :: addr
  ufun :: "voidp \<Rightarrow> voidp \<Rightarrow> 'u state \<Rightarrow> voidp \<times> 'u state"
  uarg :: voidp

text \<open>
  How a body ends: it returns a value; it throws an unwind exception; it leaves through the
  substrate (a yield to prompt \<open>p\<close> that is never resumed, so that the prompt returns \<open>v\<close> and
  no code of the frames in between runs); or an \<^verbatim>\<open>assert\<close> fails.
\<close>

datatype 'u outcome =
    Return voidp
  | Throw "'u mph_unwind_exception"
  | Exit nat voidp
  | AssertFail

type_synonym 'u comp = "'u state \<Rightarrow> 'u outcome \<times> 'u state"

text \<open>\<^verbatim>\<open>f->parent = _mph_top; _mph_top = f\<close>\<close>

definition mph_with_handler_enter :: "addr \<Rightarrow> 'u state \<Rightarrow> 'u state" where
  "mph_with_handler_enter f s =
     s\<lparr>heap := (heap s)(f := (heap s f)\<lparr>parent := mph_top_var s\<rparr>), mph_top_var := Some f\<rparr>"

text \<open>\<^verbatim>\<open>_mph_top = f->parent\<close>\<close>

definition mph_with_handler_leave :: "addr \<Rightarrow> 'u state \<Rightarrow> 'u state" where
  "mph_with_handler_leave f s = s\<lparr>mph_top_var := parent (heap s f)\<rparr>"

definition mph_with_handler :: "bool \<Rightarrow> addr \<Rightarrow> 'u comp \<Rightarrow> 'u comp" where
  "mph_with_handler has_try f body s =
     (case body (mph_with_handler_enter f s) of (out, s') \<Rightarrow>
        if has_try then
          (case out of
             Return v \<Rightarrow>
               if mph_top_var s' = Some f then (Return v, mph_with_handler_leave f s')
               else (AssertFail, s')
           | Throw e \<Rightarrow>
               if mph_top_var s' = Some f then (Throw e, mph_with_handler_leave f s')
               else (AssertFail, s')
           | Exit p v \<Rightarrow> (Exit p v, s')
           | AssertFail \<Rightarrow> (AssertFail, s'))
        else
          (case out of
             Return v \<Rightarrow> (Return v, mph_with_handler_leave f s')
           | _ \<Rightarrow> (out, s')))"

section \<open>Linear handlers, under and mask\<close>

text \<open>
  The local variable \<^verbatim>\<open>h\<close> of an installer is a slot of automatic storage; its address is the
  argument \<open>h\<close> of the model.
\<close>

text \<open>The assignments to the fields of the local frame, before it is installed.\<close>

definition linear_frame :: "addr \<Rightarrow> mph_kind_t \<Rightarrow> voidp \<Rightarrow> 'u state \<Rightarrow> 'u state" where
  "linear_frame h knd hdat s =
     s\<lparr>heap := (heap s)(h := (heap s h)\<lparr>kind := knd, hdata := hdat, prompt := None\<rparr>)\<rparr>"

definition under_frame :: "addr \<Rightarrow> mph_kind_t \<Rightarrow> 'u state \<Rightarrow> 'u state" where
  "under_frame h u s =
     s\<lparr>heap := (heap s)(h := (heap s h)\<lparr>under := u, kind := MPH_UNDER, hdata := 0\<rparr>)\<rparr>"

definition mask_frame :: "addr \<Rightarrow> mph_kind_t \<Rightarrow> nat \<Rightarrow> 'u state \<Rightarrow> 'u state" where
  "mask_frame h m from_level s =
     s\<lparr>heap := (heap s)(h := (heap s h)\<lparr>under := m, mfrom := from_level,
                                        kind := MPH_UNDER, hdata := 0\<rparr>)\<rparr>"

definition mph_linear_handler ::
  "bool \<Rightarrow> addr \<Rightarrow> mph_kind_t \<Rightarrow> voidp \<Rightarrow> (voidp \<Rightarrow> voidp \<Rightarrow> 'u comp) \<Rightarrow> voidp \<Rightarrow> 'u comp" where
  "mph_linear_handler has_try h knd hdat fn arg s =
     mph_with_handler has_try h (\<lambda>s'. fn (hdata (heap s' h)) arg s') (linear_frame h knd hdat s)"

definition mph_under ::
  "bool \<Rightarrow> addr \<Rightarrow> mph_kind_t \<Rightarrow> (voidp \<Rightarrow> 'u comp) \<Rightarrow> voidp \<Rightarrow> 'u comp" where
  "mph_under has_try h u fn arg s = mph_with_handler has_try h (fn arg) (under_frame h u s)"

definition mph_mask ::
  "bool \<Rightarrow> addr \<Rightarrow> mph_kind_t \<Rightarrow> nat \<Rightarrow> (voidp \<Rightarrow> 'u comp) \<Rightarrow> voidp \<Rightarrow> 'u comp" where
  "mph_mask has_try h m from_level fn arg s =
     mph_with_handler has_try h (fn arg) (mask_frame h m from_level s)"

section \<open>The prompt substrate\<close>

text \<open>
  Modelled from the spec: the prompt substrate (\<^verbatim>\<open>mp_prompt\<close>, \<^verbatim>\<open>mp_yield\<close>, \<^verbatim>\<open>mp_myield\<close>,
  \<^verbatim>\<open>mp_resume\<close>, \<^verbatim>\<open>mp_resume_tail\<close>, \<^verbatim>\<open>mp_resume_drop\<close>, \<^verbatim>\<open>mp_resume_should_unwind\<close>) is declared in
  \<^verbatim>\<open>mprompt.h\<close> and is not part of the file. Its contract: a prompt calls its start function
  under a new prompt; a yield captures the continuation up to the prompt and calls the yield
  function with a token outside the prompt; a resume reinstates the continuation, so that
  the yield returns the envelope of the resume, and returns itself what the continuation
  finally produces; a drop releases the token without resuming. So the value of the start
  function is not yet the result of the prompt: it is what the latest resume returns to the
  handler-side function that made it, and the prompt returns what the first of these
  functions returns.

  The model follows one run of the yielding code. The calls the substrate receives are data
  (\<open>mp_call\<close>); a yield function ends with the call that consumes its token, and either
  returns the value of that call or a value of its own. The yield site sees either the
  envelope (\<open>Resumed\<close>) or nothing any more (\<open>Exited v\<close>: the yield function returned \<open>v\<close> and
  did not resume). A yield function that resumed waits in \<open>mp_waiting\<close> until the start
  function of its prompt has returned. A second resume of a multi-shot token is a second
  run of the code after the yield and is not composed with the first.
\<close>

datatype mp_resume_t = Resume_token nat

datatype mp_call =
    Mp_resume mp_resume_t mph_resume_env_t
  | Mp_resume_tail mp_resume_t mph_resume_env_t
  | Mp_resume_drop mp_resume_t

text \<open>
  The end of a yield function: \<open>Return_call c\<close> is \<^verbatim>\<open>return c;\<close> and \<open>Call_return c v\<close> is
  \<^verbatim>\<open>c; return v;\<close>.
\<close>

datatype handler_ret =
    Return_call (call_of: mp_call)
  | Call_return (call_of: mp_call) voidp

datatype yield_result = Resumed mph_resume_env_t | Exited voidp

text \<open>
  Modelled from the spec: what \<^verbatim>\<open>mp_resume\<close>, \<^verbatim>\<open>mp_resume_tail\<close> and \<^verbatim>\<open>mp_resume_drop\<close> hand to the
  yield site that holds the token \<open>r\<close>: a resume threads its envelope into the continuation,
  a drop (or a call on another token) does not reinstate it.
\<close>

fun mp_delivers :: "mp_resume_t \<Rightarrow> mp_call \<Rightarrow> mph_resume_env_t option" where
  "mp_delivers r (Mp_resume r' e) = (if r' = r then Some e else None)"
| "mp_delivers r (Mp_resume_tail r' e) = (if r' = r then Some e else None)"
| "mp_delivers r (Mp_resume_drop r') = None"

fun returned_value :: "handler_ret \<Rightarrow> voidp" where
  "returned_value (Return_call c) = 0"
| "returned_value (Call_return c v) = v"

text \<open>The value a yield function returns itself, if it does not return the value of its call.\<close>

fun own_value :: "handler_ret \<Rightarrow> voidp option" where
  "own_value (Return_call c) = None"
| "own_value (Call_return c v) = Some v"

text \<open>
  Modelled from the spec: \<^verbatim>\<open>mp_yield(p, f, env)\<close> calls \<open>f\<close> with a token outside the prompt; the
  value a resume carries flows back as the result of the yield, and the function that
  resumed waits for the continuation. \<open>f\<close> is the yield function already applied to its
  environment.
\<close>

definition mp_yield ::
  "nat \<Rightarrow> (mp_resume_t \<Rightarrow> 'u state \<Rightarrow> handler_ret \<times> 'u state) \<Rightarrow> 'u state
     \<Rightarrow> yield_result \<times> 'u state" where
  "mp_yield p f s =
     (case f (Resume_token p) s of (hr, s') \<Rightarrow>
        (case mp_delivers (Resume_token p) (call_of hr) of
           Some e \<Rightarrow> (Resumed e, s'\<lparr>mp_waiting := (p, own_value hr) # mp_waiting s'\<rparr>)
         | None \<Rightarrow> (Exited (returned_value hr), s')))"

text \<open>Modelled from the spec: \<^verbatim>\<open>mp_myield\<close> is \<^verbatim>\<open>mp_yield\<close> with a token that may be resumed again.\<close>

definition mp_myield ::
  "nat \<Rightarrow> (mp_resume_t \<Rightarrow> 'u state \<Rightarrow> handler_ret \<times> 'u state) \<Rightarrow> 'u state
     \<Rightarrow> yield_result \<times> 'u state" where
  "mp_myield p f s = mp_yield p f s"

text \<open>
  Modelled from the spec: the value \<open>v\<close> that the continuation of a prompt produces passes
  through the waiting yield functions, the latest first: one that returns the value of its
  resume hands it on, one that returns a value of its own replaces it.
\<close>

fun handler_returns :: "voidp option list \<Rightarrow> voidp \<Rightarrow> voidp" where
  "handler_returns [] v = v"
| "handler_returns (None # ws) v = handler_returns ws v"
| "handler_returns (Some w # ws) v = handler_returns ws w"

definition mp_returns_through :: "nat \<Rightarrow> 'u state \<Rightarrow> voidp \<Rightarrow> voidp" where
  "mp_returns_through p s v =
     handler_returns (map snd (filter (\<lambda>e. fst e = p) (mp_waiting s))) v"

definition mp_leave_prompt :: "nat \<Rightarrow> 'u state \<Rightarrow> 'u state" where
  "mp_leave_prompt p s = s\<lparr>mp_waiting := filter (\<lambda>e. fst e \<noteq> p) (mp_waiting s)\<rparr>"

text \<open>
  Modelled from the spec: \<^verbatim>\<open>mp_prompt(start, env)\<close> installs a prompt and calls \<open>start\<close> under it.
  When \<open>start\<close> returns, or a yield to this prompt is not resumed, the value goes through the
  yield functions that resumed a yield to this prompt and is then the result of the prompt.
  An exception, or a yield to an outer prompt that is not resumed, leaves through them.
  \<open>p\<close> is the handle of the new prompt.
\<close>

definition mp_prompt :: "nat \<Rightarrow> (nat \<Rightarrow> 'u comp) \<Rightarrow> 'u comp" where
  "mp_prompt p start s =
     (case start p s of (out, s') \<Rightarrow>
        (case out of
           Return v \<Rightarrow> (Return (mp_returns_through p s' v), mp_leave_prompt p s')
         | Exit q v \<Rightarrow>
             if q = p then (Return (mp_returns_through p s' v), mp_leave_prompt p s')
             else (Exit q v, mp_leave_prompt p s')
         | Throw e \<Rightarrow> (Throw e, mp_leave_prompt p s')
         | AssertFail \<Rightarrow> (AssertFail, s')))"

section \<open>Abort and unwind\<close>

definition mph_abort_fun :: "mp_resume_t \<Rightarrow> voidp \<Rightarrow> 'u state \<Rightarrow> handler_ret \<times> 'u state" where
  "mph_abort_fun r arg s = (Call_return (Mp_resume_drop r) arg, s)"

text \<open>
  \<^verbatim>\<open>mph_abort_to\<close> returns what \<^verbatim>\<open>mp_yield\<close> returns, the address of a resume envelope; its
  only caller drops that value, and \<open>0\<close> stands for it.
\<close>

definition mph_abort_to :: "addr \<Rightarrow> voidp \<Rightarrow> 'u comp" where
  "mph_abort_to h arg s =
     (case prompt (heap s h) of
        None \<Rightarrow> (AssertFail, s)
      | Some p \<Rightarrow>
          (case mp_yield p (\<lambda>r. mph_abort_fun r arg) s of
             (Resumed e, s') \<Rightarrow> (Return 0, s')
           | (Exited v, s') \<Rightarrow> (Exit p v, s')))"

definition mph_unwind_to ::
  "bool \<Rightarrow> addr \<Rightarrow> (voidp \<Rightarrow> voidp \<Rightarrow> 'u state \<Rightarrow> voidp \<times> 'u state) \<Rightarrow> voidp \<Rightarrow> 'u comp" where
  "mph_unwind_to has_try tgt fn arg s =
     (if has_try then (Throw \<lparr>target = tgt, ufun = fn, uarg = arg\<rparr>, s)
      else mph_abort_to tgt arg s)"

section \<open>Prompt handlers\<close>

record 'u mph_start_env =
  ekind :: mph_kind_t
  hdata_size :: nat
  body :: "voidp \<Rightarrow> voidp \<Rightarrow> 'u comp"
  earg :: voidp

text \<open>
  \<open>h\<close> is the address of the local frame of \<^verbatim>\<open>mph_start\<close> and \<open>hdat\<close> the address that
  \<^verbatim>\<open>alloca(env->hdata_size)\<close> returns.
\<close>

definition start_frame :: "addr \<Rightarrow> voidp \<Rightarrow> nat \<Rightarrow> 'u mph_start_env \<Rightarrow> 'u state \<Rightarrow> 'u state" where
  "start_frame h hdat prmpt env s =
     s\<lparr>heap := (heap s)(h := (heap s h)\<lparr>kind := ekind env, hdata := hdat,
                                        prompt := Some prmpt\<rparr>)\<rparr>"

definition mph_start :: "bool \<Rightarrow> addr \<Rightarrow> voidp \<Rightarrow> nat \<Rightarrow> 'u mph_start_env \<Rightarrow> 'u comp" where
  "mph_start has_try h hdat prmpt env s =
     (case mph_with_handler has_try h (body env hdat (earg env))
             (start_frame h hdat prmpt env s) of
        (Throw e, s') \<Rightarrow>
          if has_try then
            (if target e \<noteq> h then (Throw e, s')
             else (case ufun e hdat (uarg e) s' of (v, s'') \<Rightarrow> (Return v, s'')))
          else (Throw e, s')
      | r \<Rightarrow> r)"

text \<open>\<open>p\<close> is the handle of the fresh prompt that \<^verbatim>\<open>mp_prompt\<close> creates.\<close>

definition mph_prompt ::
  "bool \<Rightarrow> addr \<Rightarrow> voidp \<Rightarrow> nat \<Rightarrow> mph_kind_t \<Rightarrow> nat \<Rightarrow> (voidp \<Rightarrow> voidp \<Rightarrow> 'u comp) \<Rightarrow> voidp
     \<Rightarrow> 'u comp" where
  "mph_prompt has_try h hdat p knd size_hd fn arg s =
     mp_prompt p
       (\<lambda>prmpt. mph_start has_try h hdat prmpt
                  \<lparr>ekind = knd, hdata_size = size_hd, body = fn, earg = arg\<rparr>) s"

section \<open>Yield\<close>

type_synonym 'u mph_yield_fun_t =
  "mp_resume_t \<Rightarrow> addr \<Rightarrow> voidp \<Rightarrow> 'u state \<Rightarrow> handler_ret \<times> 'u state"

text \<open>
  The yield envelope carries \<^verbatim>\<open>&h->hdata\<close>, the address of a field of the frame \<open>h\<close>; the model
  passes the address of the frame.
\<close>

record 'u mph_yield_env_t =
  yhdata :: addr
  yfun :: "'u mph_yield_fun_t"
  yarg :: voidp

definition mph_yield_fun ::
  "mp_resume_t \<Rightarrow> 'u mph_yield_env_t \<Rightarrow> 'u state \<Rightarrow> handler_ret \<times> 'u state" where
  "mph_yield_fun r env s = yfun env r (yhdata env) (yarg env) s"

definition mph_unwind_fun :: "voidp \<Rightarrow> voidp \<Rightarrow> 'u state \<Rightarrow> voidp \<times> 'u state" where
  "mph_unwind_fun hdat arg s = (arg, s)"

definition mph_yield_to_internal ::
  "bool \<Rightarrow> bool \<Rightarrow> addr \<Rightarrow> 'u mph_yield_fun_t \<Rightarrow> voidp \<Rightarrow> 'u comp" where
  "mph_yield_to_internal has_try once h fn arg s =
     (case prompt (heap s h) of
        None \<Rightarrow> (AssertFail, s)
      | Some p \<Rightarrow>
          (case (if once then mp_yield p else mp_myield p)
                  (\<lambda>r. mph_yield_fun r \<lparr>yhdata = h, yfun = fn, yarg = arg\<rparr>)
                  (s\<lparr>mph_top_var := parent (heap s h)\<rparr>) of
             (Exited v, s1) \<Rightarrow> (Exit p v, s1)
           | (Resumed renv, s1) \<Rightarrow>
               (let s2 = s1\<lparr>mph_top_var := mph_top_var s\<rparr>;
                    s3 = s2\<lparr>heap := (heap s2)(h := (heap s2 h)\<lparr>parent := mph_top_var s2\<rparr>)\<rparr>
                in if unwind renv then
                     (case mph_unwind_to has_try h mph_unwind_fun (result renv) s3 of
                        (Return v, s4) \<Rightarrow> (Return 0, s4)
                      | r \<Rightarrow> r)
                   else (Return (result renv), s3))))"

definition mph_yield_to :: "bool \<Rightarrow> addr \<Rightarrow> 'u mph_yield_fun_t \<Rightarrow> voidp \<Rightarrow> 'u comp" where
  "mph_yield_to has_try h fn arg s = mph_yield_to_internal has_try True h fn arg s"

definition mph_myield_to :: "bool \<Rightarrow> addr \<Rightarrow> 'u mph_yield_fun_t \<Rightarrow> voidp \<Rightarrow> 'u comp" where
  "mph_myield_to has_try h fn arg s = mph_yield_to_internal has_try False h fn arg s"

section \<open>Resuming\<close>

text \<open>
  Each wrapper builds a resume envelope and hands it to the substrate; the model returns the
  call it makes. \<open>should_unwind\<close> is the substrate's \<^verbatim>\<open>mp_resume_should_unwind\<close>.
\<close>

definition mph_resume :: "mp_resume_t \<Rightarrow> voidp \<Rightarrow> mp_call" where
  "mph_resume r arg = Mp_resume r \<lparr>result = arg, unwind = False\<rparr>"

definition mph_resume_tail :: "mp_resume_t \<Rightarrow> voidp \<Rightarrow> mp_call" where
  "mph_resume_tail r arg = Mp_resume_tail r \<lparr>result = arg, unwind = False\<rparr>"

definition mph_resume_unwind :: "mp_resume_t \<Rightarrow> mp_call" where
  "mph_resume_unwind r = Mp_resume r \<lparr>result = 0, unwind = True\<rparr>"

definition mph_resume_drop :: "(mp_resume_t \<Rightarrow> bool) \<Rightarrow> mp_resume_t \<Rightarrow> mp_call" where
  "mph_resume_drop should_unwind r =
     (if should_unwind r then mph_resume_unwind r else Mp_resume_drop r)"

section \<open>Well-formed shadow stacks\<close>

text \<open>
  \<open>chain hp p as\<close>: following \<open>parent\<close> from the pointer \<open>p\<close> visits exactly the frames \<open>as\<close>,
  innermost first, and then reaches \<^verbatim>\<open>NULL\<close>.
\<close>

fun chain :: "(addr \<Rightarrow> frame) \<Rightarrow> addr option \<Rightarrow> addr list \<Rightarrow> bool" where
  "chain hp p [] = (p = None)"
| "chain hp p (a # as) = (p = Some a \<and> chain hp (parent (hp a)) as)"

text \<open>
  A frame that a search for \<open>knd\<close> steps over without any effect: its header kind is neither
  \<open>knd\<close> nor one of the two kinds the search interprets.
\<close>

definition neutral :: "(addr \<Rightarrow> frame) \<Rightarrow> mph_kind_t \<Rightarrow> addr \<Rightarrow> bool" where
  "neutral hp knd a =
     (kind (hp a) \<noteq> knd \<and> kind (hp a) \<noteq> MPH_UNDER \<and> kind (hp a) \<noteq> MPH_MASK)"

definition first_of :: "addr list \<Rightarrow> addr option" where
  "first_of as = (case as of [] \<Rightarrow> None | a # _ \<Rightarrow> Some a)"

section \<open>Client programs\<close>

text \<open>
  Bodies that look at the shadow stack and store what they see in the client's memory, so
  that a property of "what a body observes" is a property of the state an installer returns.
\<close>

definition observe_find :: "mph_kind_t \<Rightarrow> (addr option option) comp" where
  "observe_find knd s = (Return 0, s\<lparr>user := mph_find s knd\<rparr>)"

definition observe_data :: "(voidp option) comp" where
  "observe_data s = (Return 0, s\<lparr>user := map_option (mph_data s) (mph_top s)\<rparr>)"

text \<open>A handler-side function that ends with \<^verbatim>\<open>return mph_resume(r, q);\<close>.\<close>

definition resume_with :: "voidp \<Rightarrow> 'u mph_yield_fun_t" where
  "resume_with q r hdref arg s = (Return_call (mph_resume r q), s)"

text \<open>The same, after storing the \<^verbatim>\<open>mph_top()\<close> it runs under.\<close>

definition resume_seeing_top :: "voidp \<Rightarrow> (addr option option) mph_yield_fun_t" where
  "resume_seeing_top q r hdref arg s =
     (Return_call (mph_resume r q), s\<lparr>user := Some (mph_top s)\<rparr>)"

text \<open>A body that yields to the innermost handler of a kind.\<close>

definition yield_to_innermost :: "bool \<Rightarrow> mph_kind_t \<Rightarrow> 'u mph_yield_fun_t \<Rightarrow> 'u comp" where
  "yield_to_innermost has_try knd fn s =
     (case mph_find s knd of
        Some (Some h) \<Rightarrow> mph_yield_to has_try h fn 0 s
      | _ \<Rightarrow> (Return 0, s))"

definition frame0 :: frame where
  "frame0 = \<lparr>parent = None, prompt = None, kind = MPH_FINALLY, hdata = 0,
             under = MPH_FINALLY, mfrom = 0\<rparr>"

text \<open>A context with no handler installed.\<close>

definition empty_stack :: "'u \<Rightarrow> 'u state" where
  "empty_stack m = \<lparr>heap = (\<lambda>_. frame0), mph_top_var = None, user = m, mp_waiting = []\<rparr>"

text \<open>
  \<^verbatim>\<open>linear_handler(K1){ mask(K0, 0){ find(K1) } }\<close>: a mask for one kind around a search for
  another.
\<close>

definition mask_other_kind :: "bool \<Rightarrow> (addr option option) comp" where
  "mask_other_kind has_try =
     mph_linear_handler has_try 2 (Kind 1) 0
       (\<lambda>_ _. mph_mask has_try 1 (Kind 0) 0 (\<lambda>_. observe_find (Kind 1)) 0) 0"

text \<open>\<^verbatim>\<open>linear_handler(K0){ mask(K0, 1){ find(K0) } }\<close>: a mask that starts at level one.\<close>

definition mask_from_one :: "bool \<Rightarrow> (addr option option) comp" where
  "mask_from_one has_try =
     mph_linear_handler has_try 2 (Kind 0) 0
       (\<lambda>_ _. mph_mask has_try 1 (Kind 0) 1 (\<lambda>_. observe_find (Kind 0)) 0) 0"

text \<open>
  \<^verbatim>\<open>linear_handler(K0){ under(K0){ linear_handler(K0){ under(K0){ find(K0) } } } }\<close>, the
  frames at the addresses 4, 3, 2, 1 from the outermost to the innermost.
\<close>

definition under_twice :: "bool \<Rightarrow> (addr option option) comp" where
  "under_twice has_try =
     mph_linear_handler has_try 4 (Kind 0) 0
       (\<lambda>_ _. mph_under has_try 3 (Kind 0)
          (\<lambda>_. mph_linear_handler has_try 2 (Kind 0) 0
             (\<lambda>_ _. mph_under has_try 1 (Kind 0) (\<lambda>_. observe_find (Kind 0)) 0) 0) 0) 0"

text \<open>
  \<^verbatim>\<open>prompt_handler(K0, 0, body)\<close> whose body yields to \<^verbatim>\<open>find(K0)\<close> with a handler-side function
  that resumes with 7: the frame at address 1, its data at 100, the prompt 5.
\<close>

definition flip_once :: "bool \<Rightarrow> (addr option option) comp" where
  "flip_once has_try =
     mph_prompt has_try 1 100 5 (Kind 0) 0
       (\<lambda>_ _. yield_to_innermost has_try (Kind 0) (resume_seeing_top 7)) 0"

text \<open>
  A yield site: the prompt handler 1 (prompt 5) installed inside the linear handler 9, and
  the linear handler 2 installed in the body of 1; the yield happens in the body of 2.
\<close>

definition yield_site :: "(addr option option) state" where
  "yield_site =
     \<lparr>heap = (\<lambda>_. frame0)
        (9 := frame0\<lparr>kind := Kind 9\<rparr>,
         1 := frame0\<lparr>parent := Some 9, prompt := Some 5, kind := Kind 0, hdata := 100\<rparr>,
         2 := frame0\<lparr>parent := Some 1, kind := Kind 1\<rparr>),
      mph_top_var = Some 2, user = None, mp_waiting = []\<rparr>"

text \<open>A handler-side function that ends with \<^verbatim>\<open>mph_resume_unwind(r); return v;\<close>.\<close>

definition unwind_with :: "voidp \<Rightarrow> 'u mph_yield_fun_t" where
  "unwind_with v r hdref arg s = (Call_return (mph_resume_unwind r) v, s)"

text \<open>
  The body of a prompt handler of kind \<open>Kind 0\<close>: it installs a linear handler at address 2
  and, inside, yields to the prompt handler; the handler side answers with a forced unwind
  and returns 55.
\<close>

definition unwinding_body :: "bool \<Rightarrow> voidp \<Rightarrow> voidp \<Rightarrow> 'u comp" where
  "unwinding_body has_try hdat arg =
     mph_linear_handler has_try 2 (Kind 1) 0
       (\<lambda>_ _. yield_to_innermost has_try (Kind 0) (unwind_with 55)) 0"

definition unwinding_env :: "bool \<Rightarrow> 'u mph_start_env" where
  "unwinding_env has_try =
     \<lparr>ekind = Kind 0, hdata_size = 0, body = unwinding_body has_try, earg = 0\<rparr>"

text \<open>
  A stack before \<^verbatim>\<open>under(Kind 0, ...)\<close> is called: the handler 2 of \<open>Kind 0\<close> on top, a handler
  3 of another kind and the handler 4 of \<open>Kind 0\<close>.
\<close>

definition two_handlers :: "(addr option option) state" where
  "two_handlers =
     \<lparr>heap = (\<lambda>_. frame0)
        (4 := frame0\<lparr>kind := Kind 0\<rparr>,
         3 := frame0\<lparr>parent := Some 4, kind := Kind 1\<rparr>,
         2 := frame0\<lparr>parent := Some 3, kind := Kind 0\<rparr>),
      mph_top_var = Some 2, user = None, mp_waiting = []\<rparr>"

text \<open>A body that does nothing.\<close>

definition do_nothing :: "'u comp" where
  "do_nothing s = (Return 0, s)"

text \<open>
  \<^verbatim>\<open>linear_handler(K0){ prompt_handler(K0){ inner }; after }\<close>: the outer handler \<open>A\<close> at address
  9, the inner handler \<open>B\<close> at address 1 with the prompt 5.
\<close>

definition nested_pair ::
  "bool \<Rightarrow> (addr option option) comp \<Rightarrow> (addr option option) comp \<Rightarrow> (addr option option) comp"
  where
  "nested_pair has_try inner after =
     mph_linear_handler has_try 9 (Kind 0) 0
       (\<lambda>_ _ s. case mph_prompt has_try 1 100 5 (Kind 0) 0 (\<lambda>_ _. inner) 0 s of
                   (Return v, s') \<Rightarrow> after s'
                 | r \<Rightarrow> r) 0"

section \<open>Chains of frames\<close>

lemma chain_first: "chain hp p as \<Longrightarrow> p = first_of as"
  by (cases as) (simp_all add: first_of_def)

lemma chain_append: "chain hp p (xs @ ys) \<Longrightarrow> chain hp (first_of ys) ys"
proof (induction xs arbitrary: p)
  case Nil
  then show ?case using chain_first by fastforce
next
  case (Cons x xs)
  then show ?case by auto
qed

lemma chain_unique: "chain hp p as \<Longrightarrow> chain hp p bs \<Longrightarrow> as = bs"
proof (induction as arbitrary: p bs)
  case Nil
  then show ?case by (cases bs) simp_all
next
  case (Cons a as)
  then show ?case by (cases bs) auto
qed

lemma chain_distinct: "chain hp p as \<Longrightarrow> distinct as"
proof (induction as arbitrary: p)
  case Nil
  then show ?case by simp
next
  case (Cons a as)
  have "a \<notin> set as"
  proof
    assume "a \<in> set as"
    then obtain ys zs where split: "as = ys @ a # zs"
      by (meson split_list)
    from Cons.prems have "chain hp (Some a) (a # as)" by simp
    moreover from Cons.prems split have "chain hp (first_of (a # zs)) (a # zs)"
      using chain_append [of hp p "a # ys" "a # zs"] by simp
    hence "chain hp (Some a) (a # zs)" by (simp add: first_of_def)
    ultimately have "a # as = a # zs" by (rule chain_unique)
    with split show False by simp
  qed
  moreover from Cons have "distinct as" by auto
  ultimately show ?case by simp
qed

section \<open>Steps of the search\<close>

lemma find_loop_null: "find_loop hp knd None lvl = Some None"
  by (subst find_loop.simps) simp

lemma find_loop_hit: "kind (hp a) = knd \<Longrightarrow> find_loop hp knd (Some a) 0 = Some (Some a)"
  by (subst find_loop.simps) simp

lemma find_loop_masked:
  "kind (hp a) = knd \<Longrightarrow> find_loop hp knd (Some a) (Suc lvl) = find_loop hp knd (parent (hp a)) lvl"
  by (subst find_loop.simps) simp

lemma find_loop_neutral_step:
  "neutral hp knd a \<Longrightarrow> find_loop hp knd (Some a) lvl = find_loop hp knd (parent (hp a)) lvl"
  by (subst find_loop.simps) (auto simp: neutral_def)

lemma find_loop_neutral:
  "chain hp p (pre @ rest) \<Longrightarrow> \<forall>x\<in>set pre. neutral hp knd x \<Longrightarrow>
     find_loop hp knd p lvl = find_loop hp knd (first_of rest) lvl"
proof (induction pre arbitrary: p)
  case Nil
  then show ?case using chain_first by fastforce
next
  case (Cons x pre)
  then show ?case by (auto simp: find_loop_neutral_step)
qed

lemma find_loop_under_step:
  "kind (hp a) = MPH_UNDER \<Longrightarrow> knd \<noteq> MPH_UNDER \<Longrightarrow>
     find_loop hp knd (Some a) lvl =
       (case under_skip hp (under (hp a)) a of
          None \<Rightarrow> None
        | Some None \<Rightarrow> Some None
        | Some (Some b) \<Rightarrow> find_loop hp knd (parent (hp b)) lvl)"
  by (subst find_loop.simps) auto

lemma under_skip_found:
  "chain hp (parent (hp a)) (pre @ b # rest) \<Longrightarrow> \<forall>x\<in>set pre. kind (hp x) \<noteq> u \<Longrightarrow>
     kind (hp b) = u \<Longrightarrow> under_skip hp u a = Some (Some b)"
proof (induction pre arbitrary: a)
  case Nil
  then show ?case by (subst under_skip.simps) simp
next
  case (Cons x pre)
  from Cons.prems have px: "parent (hp a) = Some x" and kx: "kind (hp x) \<noteq> u"
    and rest: "chain hp (parent (hp x)) (pre @ b # rest)" by simp_all
  have "under_skip hp u a = under_skip hp u x"
    by (subst under_skip.simps) (simp add: px kx)
  also have "\<dots> = Some (Some b)" using Cons.IH [OF rest] Cons.prems by simp
  finally show ?case .
qed

lemma under_skip_none:
  "chain hp (parent (hp a)) as \<Longrightarrow> \<forall>x\<in>set as. kind (hp x) \<noteq> u \<Longrightarrow>
     under_skip hp u a = Some None"
proof (induction as arbitrary: a)
  case Nil
  then show ?case by (subst under_skip.simps) simp
next
  case (Cons x as)
  from Cons.prems have px: "parent (hp a) = Some x" and kx: "kind (hp x) \<noteq> u"
    and rest: "chain hp (parent (hp x)) as" by simp_all
  have "under_skip hp u a = under_skip hp u x"
    by (subst under_skip.simps) (simp add: px kx)
  also have "\<dots> = Some None" using Cons.IH [OF rest] Cons.prems by simp
  finally show ?case .
qed


lemma chain_after: "chain hp p (pre @ b # rest) \<Longrightarrow> chain hp (parent (hp b)) rest"
  using chain_append [of hp p pre "b # rest"] by (simp add: first_of_def)

lemma find_loop_mask_step:
  "kind (hp a) = MPH_MASK \<Longrightarrow> knd \<noteq> MPH_MASK \<Longrightarrow>
     find_loop hp knd (Some a) lvl =
       find_loop hp knd (parent (hp a))
         (if mask_k (hp a) = knd \<and> mfrom (hp a) \<le> lvl then lvl + 1 else lvl)"
  by (subst find_loop.simps) auto

text \<open>
  On a chain that ends, the search returns: either \<^verbatim>\<open>NULL\<close> or a frame of the chain whose
  header kind is the kind searched for.
\<close>

lemma find_loop_total:
  "chain hp p as \<Longrightarrow>
     \<exists>r. find_loop hp knd p lvl = Some r \<and>
         (\<forall>x. r = Some x \<longrightarrow> x \<in> set as \<and> kind (hp x) = knd)"
proof (induction as arbitrary: p lvl rule: length_induct)
  case (1 as)
  show ?case
  proof (cases as)
    case Nil
    with "1.prems" show ?thesis by (simp add: find_loop_null)
  next
    case (Cons a as')
    with "1.prems" have p: "p = Some a" and tl: "chain hp (parent (hp a)) as'" by simp_all
    have step: "\<exists>r. find_loop hp knd (parent (hp a)) l = Some r \<and>
                  (\<forall>x. r = Some x \<longrightarrow> x \<in> set as \<and> kind (hp x) = knd)" for l
      using "1.IH" tl Cons by fastforce
    consider (hit) "kind (hp a) = knd" | (und) "kind (hp a) \<noteq> knd" "kind (hp a) = MPH_UNDER"
      | (msk) "kind (hp a) \<noteq> knd" "kind (hp a) = MPH_MASK" | (oth) "neutral hp knd a"
      by (auto simp: neutral_def)
    then show ?thesis
    proof cases
      case hit
      show ?thesis
      proof (cases lvl)
        case 0
        with hit p Cons show ?thesis by (simp add: find_loop_hit)
      next
        case (Suc l)
        with hit p step [of l] show ?thesis by (simp add: find_loop_masked)
      qed
    next
      case und
      hence red: "find_loop hp knd (Some a) lvl =
          (case under_skip hp (under (hp a)) a of
             None \<Rightarrow> None
           | Some None \<Rightarrow> Some None
           | Some (Some b) \<Rightarrow> find_loop hp knd (parent (hp b)) lvl)"
        by (intro find_loop_under_step) auto
      show ?thesis
      proof (cases "\<exists>x\<in>set as'. kind (hp x) = under (hp a)")
        case False
        hence "under_skip hp (under (hp a)) a = Some None"
          using under_skip_none [OF tl] by blast
        with red p show ?thesis by simp
      next
        case True
        then obtain ys b zs where split: "as' = ys @ b # zs" and kb: "kind (hp b) = under (hp a)"
          and ys: "\<forall>y\<in>set ys. kind (hp y) \<noteq> under (hp a)"
          using split_list_first_prop [of as' "\<lambda>x. kind (hp x) = under (hp a)"] by blast
        from tl split have sk: "under_skip hp (under (hp a)) a = Some (Some b)"
          using under_skip_found [of hp a ys b zs] ys kb by simp
        from tl split have "chain hp (parent (hp b)) zs" using chain_after by fastforce
        moreover have "length zs < length as" using split Cons by simp
        ultimately obtain r where "find_loop hp knd (parent (hp b)) lvl = Some r"
          and "\<forall>x. r = Some x \<longrightarrow> x \<in> set zs \<and> kind (hp x) = knd"
          using "1.IH" by blast
        with red sk p split Cons show ?thesis by auto
      qed
    next
      case msk
      hence "find_loop hp knd (Some a) lvl =
          find_loop hp knd (parent (hp a))
            (if mask_k (hp a) = knd \<and> mfrom (hp a) \<le> lvl then lvl + 1 else lvl)"
        by (intro find_loop_mask_step) auto
      with p step show ?thesis by simp
    next
      case oth
      with p step [of lvl] show ?thesis by (simp add: find_loop_neutral_step)
    qed
  qed
qed

lemma find_loop_first:
  assumes "chain hp p (pre @ b # rest)" and "\<forall>x\<in>set pre. neutral hp knd x" and "kind (hp b) = knd"
  shows "find_loop hp knd p 0 = Some (Some b)"
proof -
  have "find_loop hp knd p 0 = find_loop hp knd (first_of (b # rest)) 0"
    using assms(1,2) by (rule find_loop_neutral)
  thus ?thesis using assms(3) by (simp add: first_of_def find_loop_hit)
qed

lemma find_loop_under:
  assumes "chain hp p (u # pre @ a # rest)" and "kind (hp u) = MPH_UNDER" and "knd \<noteq> MPH_UNDER"
    and "\<forall>x\<in>set pre. kind (hp x) \<noteq> under (hp u)" and "kind (hp a) = under (hp u)"
  shows "find_loop hp knd p lvl = find_loop hp knd (parent (hp a)) lvl"
proof -
  from assms(1) have p: "p = Some u" and tl: "chain hp (parent (hp u)) (pre @ a # rest)"
    by simp_all
  have "under_skip hp (under (hp u)) u = Some (Some a)"
    using tl assms(4,5) by (rule under_skip_found)
  thus ?thesis using p assms(2,3) by (simp add: find_loop_under_step)
qed

lemma under_skip_stop:
  "parent (hp a) = Some b \<Longrightarrow> kind (hp b) = u \<Longrightarrow> under_skip hp u a = Some (Some b)"
  by (subst under_skip.simps) simp

lemma under_skip_next:
  "parent (hp a) = Some b \<Longrightarrow> kind (hp b) \<noteq> u \<Longrightarrow> under_skip hp u a = under_skip hp u b"
  by (subst under_skip.simps) simp

lemma under_skip_end: "parent (hp a) = None \<Longrightarrow> under_skip hp u a = Some None"
  by (subst under_skip.simps) simp

lemmas run_defs = mph_linear_handler_def mph_under_def mph_mask_def mph_with_handler_def
  mph_with_handler_enter_def mph_with_handler_leave_def linear_frame_def under_frame_def
  mask_frame_def observe_find_def mph_find_def empty_stack_def frame0_def

lemmas find_steps = find_loop_null find_loop_hit find_loop_under_step find_loop_neutral_step
  neutral_def under_skip_stop under_skip_next under_skip_end

lemma find_loop_cycle:
  assumes closed: "\<forall>a\<in>S. neutral hp knd a \<and> (\<exists>b\<in>S. parent (hp a) = Some b)"
    and a: "a \<in> S"
  shows "find_loop hp knd (Some a) lvl = None"
proof (rule ccontr)
  assume "find_loop hp knd (Some a) lvl \<noteq> None"
  then obtain y where run: "find_loop hp knd (Some a) lvl = Some y" by auto
  have main: "hp' = hp \<and> knd' = knd \<and> h \<in> Some ` S \<longrightarrow> False"
    if run': "find_loop hp' knd' h l = Some y'" for hp' knd' h l y'
    apply (rule find_loop.raw_induct
             [where P = "\<lambda>a b c d e. a = hp \<and> b = knd \<and> c \<in> Some ` S \<longrightarrow> False", OF _ run'])
    subgoal premises prems for rec a b c d e
    proof (intro impI, elim conjE)
      assume eqs: "a = hp" "b = knd" and hin: "c \<in> Some ` S"
      from hin obtain x where h: "c = Some x" and x: "x \<in> S" by auto
      from closed x obtain z where n: "neutral hp knd x" and z: "z \<in> S"
        and px: "parent (hp x) = Some z" by blast
      have "rec hp knd (Some z) d = Some e"
        using prems(2) n px unfolding h eqs by (auto simp: neutral_def)
      from prems(1) [OF this] z show False by simp
    qed
    done
  from main [OF run] a show False by simp
qed

section \<open>Evaluating client programs\<close>

lemmas yield_defs = mph_prompt_def mp_prompt_def mp_returns_through_def mp_leave_prompt_def
  mph_start_def start_frame_def
  yield_to_innermost_def mph_yield_to_def mph_myield_to_def mph_yield_to_internal_def
  mp_yield_def mp_myield_def mph_yield_fun_def resume_seeing_top_def resume_with_def
  mph_resume_def mph_top_def mph_unwind_to_def

text \<open>
  A body that returns with its frame on top and the parent link of the frame as the
  installation wrote it leaves \<^verbatim>\<open>_mph_top\<close> as it was before the installation.
\<close>

lemma with_handler_return_restores:
  assumes "bd (mph_with_handler_enter f s) = (Return v, s')"
    and "mph_top_var s' = Some f"
    and "parent (heap s' f) = mph_top_var s"
  shows "mph_with_handler t f bd s = (Return v, s'\<lparr>mph_top_var := mph_top_var s\<rparr>)"
  using assms by (simp add: mph_with_handler_def mph_with_handler_leave_def)

text \<open>
  A yield that is resumed without the unwind flag: the handler side ran with \<^verbatim>\<open>_mph_top\<close> at
  the parent of \<open>h\<close>; afterwards \<^verbatim>\<open>_mph_top\<close> is the top of the yield site again, and so is the
  parent of \<open>h\<close>, whatever the top was when the resume came.
\<close>

lemma yield_reentry_links:
  assumes "prompt (heap s h) = Some p"
    and "fn (Resume_token p) h arg (s\<lparr>mph_top_var := parent (heap s h)\<rparr>) = (hr, s1)"
    and "mp_delivers (Resume_token p) (call_of hr) = Some renv" and "\<not> unwind renv"
  shows "mph_top_var (snd (mph_yield_to_internal t once h fn arg s)) = mph_top_var s \<and>
         parent (heap (snd (mph_yield_to_internal t once h fn arg s)) h) = mph_top_var s"
  using assms
  by (simp add: mph_yield_to_internal_def mp_yield_def mp_myield_def mph_yield_fun_def Let_def)

text \<open>
  Without exceptions an unwind request is a yield to the prompt of the target that is never
  resumed: the prompt returns the argument, and the unwind function is not called.
\<close>

lemma unwind_to_c_fallback:
  "prompt (heap s tgt) = Some p \<Longrightarrow> mph_unwind_to False tgt fn arg s = (Exit p arg, s)"
  by (simp add: mph_unwind_to_def mph_abort_to_def mp_yield_def mph_abort_fun_def)

lemma with_handler_throw:
  "bd (mph_with_handler_enter f s0) = (Throw e, s2) \<Longrightarrow> mph_top_var s2 = Some f \<Longrightarrow>
     mph_with_handler True f bd s0 = (Throw e, mph_with_handler_leave f s2)"
  by (simp add: mph_with_handler_def)

lemma yield_unwind_throws:
  assumes "prompt (heap sy hy) = Some py"
    and "fn (Resume_token py) hy arg (sy\<lparr>mph_top_var := parent (heap sy hy)\<rparr>) = (hr, s1)"
    and "call_of hr = mph_resume_unwind (Resume_token py)"
  shows "fst (mph_yield_to_internal True once hy fn arg sy)
           = Throw \<lparr>target = hy, ufun = mph_unwind_fun, uarg = 0\<rparr> \<and>
         mp_waiting (snd (mph_yield_to_internal True once hy fn arg sy))
           = (py, own_value hr) # mp_waiting s1"
  using assms
  by (simp add: mph_yield_to_internal_def mp_yield_def mp_myield_def mph_yield_fun_def
        mph_resume_unwind_def mph_unwind_to_def Let_def)

text \<open>
  The search in the body of \<^verbatim>\<open>mph_under\<close> is the search in the state that the scope guard
  builds from the frame of \<^verbatim>\<open>mph_under\<close>.
\<close>

lemma under_body_searches:
  "user (snd (mph_under t u knd (\<lambda>_. observe_find K) arg s0))
     = mph_find (mph_with_handler_enter u (under_frame u knd s0)) K"
  by (simp add: mph_under_def mph_with_handler_def mph_with_handler_enter_def
        mph_with_handler_leave_def observe_find_def)

section \<open>The claims\<close>

text \<open>
  C1. A mask frame should count one level of masking for its own kind, when its \<^verbatim>\<open>from\<close> is
  at most the current level, and should leave a search for another kind alone. \<^verbatim>\<open>mph_mask\<close>
  writes \<^verbatim>\<open>MPH_UNDER\<close> into the header kind, so the search never reaches its mask branch for
  such a frame and treats it as an under frame. With a handler of \<open>Kind 1\<close> around
  \<^verbatim>\<open>mask(Kind 0, 0, ...)\<close>, a search for \<open>Kind 1\<close> returns \<^verbatim>\<open>NULL\<close> instead of the handler; with
  a handler of \<open>Kind 0\<close> around \<^verbatim>\<open>mask(Kind 0, 1, ...)\<close>, where the level 0 is below \<^verbatim>\<open>from\<close>, a
  search for \<open>Kind 0\<close> returns \<^verbatim>\<open>NULL\<close> instead of the handler. Both results are the same
  whatever the search reads as the \<^verbatim>\<open>under\<close> field of the frame.
\<close>

theorem mask_installs_under_kind:
  "kind (heap (mask_frame h m lv s) h) = MPH_UNDER \<and>
   user (snd (mask_other_kind t (empty_stack None))) = Some None \<and>
   user (snd (mask_from_one t (empty_stack None))) = Some None"
  by (simp add: mask_other_kind_def mask_from_one_def run_defs find_steps)

text \<open>
  C2. After a handler installation returns, \<^verbatim>\<open>mph_top()\<close> should be what it was before. In
  both builds it is not when the body yielded to the installed prompt handler and was
  resumed: the yield sets the parent of the handler to the top of the yield site, and the
  installation then pops to that parent. A prompt handler on an empty stack whose body
  yields and is resumed with 7 returns 7 and leaves \<^verbatim>\<open>mph_top()\<close> at its own, dead frame.
\<close>

theorem flip_once_leaves_top:
  "fst (flip_once t (empty_stack None)) = Return 7 \<and>
   mph_top (empty_stack None :: (addr option option) state) = None \<and>
   mph_top (snd (flip_once t (empty_stack None))) = Some 1 \<and>
   parent (heap (snd (flip_once t (empty_stack None))) 1) = Some 1"
  by (simp add: flip_once_def run_defs yield_defs find_steps)

text \<open>
  C3, as the code has it, in the build with exceptions. A yield that is resumed through
  \<^verbatim>\<open>mph_resume_unwind\<close> throws an unwind exception whose target is the handler yielded to, and
  the handler-side function that asked for the unwind waits for its resume to return. An
  unwind exception that reaches \<^verbatim>\<open>mph_start\<close> of the frame \<open>h\<close>, the frame being on top as the
  scope guard asserts, is caught there exactly when its target is \<open>h\<close>: its function runs once on the handler data of \<open>h\<close> and the argument, in
  the state the scope guard left, and its value is what \<^verbatim>\<open>mph_start\<close> returns. With another
  target \<^verbatim>\<open>mph_start\<close> passes the same exception on, and so do a linear handler, an under
  and a mask frame. The value of \<^verbatim>\<open>mph_start\<close> is not yet what \<^verbatim>\<open>mph_prompt\<close> returns: it goes
  through the handler-side functions that resumed yields to the prompt, and one that
  returns a value \<open>w\<close> of its own, as a caller of the void \<^verbatim>\<open>mph_resume_unwind\<close> does, makes
  \<open>w\<close> the result.
\<close>

theorem unwind_caught_at_target:
  assumes "body env hdat (earg env) (mph_with_handler_enter h (start_frame h hdat p env s))
             = (Throw e, s')"
    and "mph_top_var s' = Some h"
  shows "(prompt (heap sy hy) = Some py \<and>
          fn (Resume_token py) hy arg (sy\<lparr>mph_top_var := parent (heap sy hy)\<rparr>) = (hr, s1) \<and>
          call_of hr = mph_resume_unwind (Resume_token py) \<longrightarrow>
            fst (mph_yield_to_internal True once hy fn arg sy)
              = Throw \<lparr>target = hy, ufun = mph_unwind_fun, uarg = 0\<rparr> \<and>
            mp_waiting (snd (mph_yield_to_internal True once hy fn arg sy))
              = (py, own_value hr) # mp_waiting s1) \<and>
         (target e = h \<longrightarrow>
            mph_start True h hdat p env s =
              (Return (fst (ufun e hdat (uarg e) (mph_with_handler_leave h s'))),
               snd (ufun e hdat (uarg e) (mph_with_handler_leave h s'))) \<and>
            mph_prompt True h hdat p (ekind env) (hdata_size env) (body env) (earg env) s =
              (Return (mp_returns_through p
                         (snd (ufun e hdat (uarg e) (mph_with_handler_leave h s')))
                         (fst (ufun e hdat (uarg e) (mph_with_handler_leave h s')))),
               mp_leave_prompt p (snd (ufun e hdat (uarg e) (mph_with_handler_leave h s'))))) \<and>
         (target e = h \<and>
          filter (\<lambda>x. fst x = p)
            (mp_waiting (snd (ufun e hdat (uarg e) (mph_with_handler_leave h s'))))
            = (p, Some w) # ws \<and> list_all (\<lambda>x. snd x = None) ws \<longrightarrow>
            fst (mph_prompt True h hdat p (ekind env) (hdata_size env) (body env) (earg env) s)
              = Return w) \<and>
         (target e \<noteq> h \<longrightarrow>
            mph_start True h hdat p env s = (Throw e, mph_with_handler_leave h s')) \<and>
         (fn1 (hdata (heap (mph_with_handler_enter f (linear_frame f knd hdat1 s0)) f)) arg1
              (mph_with_handler_enter f (linear_frame f knd hdat1 s0)) = (Throw e, s2) \<and>
          mph_top_var s2 = Some f \<longrightarrow>
            mph_linear_handler True f knd hdat1 fn1 arg1 s0 = (Throw e, mph_with_handler_leave f s2)) \<and>
         (fn2 arg2 (mph_with_handler_enter f (under_frame f u s0)) = (Throw e, s2) \<and>
          mph_top_var s2 = Some f \<longrightarrow>
            mph_under True f u fn2 arg2 s0 = (Throw e, mph_with_handler_leave f s2)) \<and>
         (fn2 arg2 (mph_with_handler_enter f (mask_frame f m lv s0)) = (Throw e, s2) \<and>
          mph_top_var s2 = Some f \<longrightarrow>
            mph_mask True f m lv fn2 arg2 s0 = (Throw e, mph_with_handler_leave f s2))"
proof -
  let ?r = "ufun e hdat (uarg e) (mph_with_handler_leave h s')"
  have wh: "mph_with_handler True h (body env hdat (earg env)) (start_frame h hdat p env s)
              = (Throw e, mph_with_handler_leave h s')"
    using assms by (rule with_handler_throw)
  have env: "\<lparr>ekind = ekind env, hdata_size = hdata_size env, body = body env, earg = earg env\<rparr>
               = env" by simp
  have caught: "mph_start True h hdat p env s = (Return (fst ?r), snd ?r)" if "target e = h"
    using wh that by (simp add: mph_start_def split: prod.splits)
  have prompt_result:
    "mph_prompt True h hdat p (ekind env) (hdata_size env) (body env) (earg env) s
       = (Return (mp_returns_through p (snd ?r) (fst ?r)), mp_leave_prompt p (snd ?r))"
    if "target e = h"
    using caught [OF that] by (simp add: mph_prompt_def mp_prompt_def env)
  have through: "handler_returns (Some w # map snd ws) v = w"
    if "list_all (\<lambda>x. snd x = None) ws" for v and ws :: "(nat \<times> voidp option) list"
    using that by (induction ws) auto
  have replaced:
    "fst (mph_prompt True h hdat p (ekind env) (hdata_size env) (body env) (earg env) s)
       = Return w"
    if "target e = h" "filter (\<lambda>x. fst x = p) (mp_waiting (snd ?r)) = (p, Some w) # ws"
      "list_all (\<lambda>x. snd x = None) ws"
    using prompt_result [OF that(1)] that(2) through [OF that(3)]
    by (simp add: mp_returns_through_def)
  have passed: "mph_start True h hdat p env s = (Throw e, mph_with_handler_leave h s')"
    if "target e \<noteq> h"
    using wh that by (simp add: mph_start_def)
  have lin: "mph_linear_handler True f knd hdat1 fn1 arg1 s0 = (Throw e, mph_with_handler_leave f s2)"
    if "fn1 (hdata (heap (mph_with_handler_enter f (linear_frame f knd hdat1 s0)) f)) arg1
              (mph_with_handler_enter f (linear_frame f knd hdat1 s0)) = (Throw e, s2)"
      "mph_top_var s2 = Some f"
    unfolding mph_linear_handler_def using that by (intro with_handler_throw)
  have und: "mph_under True f u fn2 arg2 s0 = (Throw e, mph_with_handler_leave f s2)"
    if "fn2 arg2 (mph_with_handler_enter f (under_frame f u s0)) = (Throw e, s2)"
      "mph_top_var s2 = Some f"
    unfolding mph_under_def using that by (intro with_handler_throw)
  have msk: "mph_mask True f m lv fn2 arg2 s0 = (Throw e, mph_with_handler_leave f s2)"
    if "fn2 arg2 (mph_with_handler_enter f (mask_frame f m lv s0)) = (Throw e, s2)"
      "mph_top_var s2 = Some f"
    unfolding mph_mask_def using that by (intro with_handler_throw)
  have raised: "fst (mph_yield_to_internal True once hy fn arg sy)
        = Throw \<lparr>target = hy, ufun = mph_unwind_fun, uarg = 0\<rparr> \<and>
      mp_waiting (snd (mph_yield_to_internal True once hy fn arg sy))
        = (py, own_value hr) # mp_waiting s1"
    if "prompt (heap sy hy) = Some py"
      "fn (Resume_token py) hy arg (sy\<lparr>mph_top_var := parent (heap sy hy)\<rparr>) = (hr, s1)"
      "call_of hr = mph_resume_unwind (Resume_token py)"
    using that by (rule yield_unwind_throws)
  from raised caught prompt_result replaced passed lin und msk show ?thesis by blast
qed

theorem unwind_caught_at_target_witness:
  "fst (unwinding_body True 100 0
          (mph_with_handler_enter 1 (start_frame 1 100 5 (unwinding_env True) (empty_stack ()))))
     = Throw \<lparr>target = 1, ufun = mph_unwind_fun, uarg = 0\<rparr> \<and>
   mph_top_var (snd (unwinding_body True 100 0
          (mph_with_handler_enter 1 (start_frame 1 100 5 (unwinding_env True) (empty_stack ())))))
     = Some 1 \<and>
   fst (mph_start True 1 100 5 (unwinding_env True) (empty_stack ())) = Return 0 \<and>
   fst (mph_prompt True 1 100 5 (Kind 0) 0 (unwinding_body True) 0 (empty_stack ()))
     = Return 55"
proof -
  let ?s1 = "mph_with_handler_enter 1 (start_frame 1 100 5 (unwinding_env True) (empty_stack ()))"
  let ?e = "\<lparr>target = 1, ufun = mph_unwind_fun, uarg = 0\<rparr> :: unit mph_unwind_exception"
  let ?s' = "snd (unwinding_body True 100 0 ?s1)"
  have out: "fst (unwinding_body True 100 0 ?s1) = Throw ?e"
    by (simp add: unwinding_body_def unwinding_env_def unwind_with_def run_defs yield_defs
          find_steps mph_resume_unwind_def)
  have tp: "mph_top_var ?s' = Some 1"
    by (simp add: unwinding_body_def unwinding_env_def unwind_with_def run_defs yield_defs
          find_steps mph_resume_unwind_def)
  have wt: "mp_waiting ?s' = [(5, Some 55)]"
    by (simp add: unwinding_body_def unwinding_env_def unwind_with_def run_defs yield_defs
          find_steps mph_resume_unwind_def)
  have b: "body (unwinding_env True) 100 (earg (unwinding_env True)) ?s1 = (Throw ?e, ?s')"
    using out by (simp add: unwinding_env_def prod_eq_iff)
  have t: "target ?e = 1" by simp
  note th = unwind_caught_at_target [OF b tp]
  note ab = mp [OF conjunct1 [OF conjunct2 [OF th]] t]
  have st: "fst (mph_start True 1 100 5 (unwinding_env True) (empty_stack ())) = Return 0"
    using conjunct1 [OF ab] by (simp add: mph_unwind_fun_def)
  have "fst (mph_prompt True 1 100 5 (Kind 0) 0 (unwinding_body True) 0 (empty_stack ()))
          = Return 55"
    using conjunct2 [OF ab] wt
    by (simp add: unwinding_env_def mph_unwind_fun_def mp_returns_through_def
          mph_with_handler_leave_def)
  with st out tp show ?thesis by simp
qed

text \<open>
  C3, as the claim has it, fails at the result of the prompt. A prompt handler whose body
  yields and whose handler side runs \<^verbatim>\<open>mph_resume_unwind(r); return 55;\<close> returns 55 in both
  builds, while the unwind function returns the null argument: with exceptions that is the
  value of \<^verbatim>\<open>mph_start\<close>; without them \<^verbatim>\<open>mph_start\<close> does not return at all, the unwind request
  leaves through a yield to the prompt.
\<close>

theorem unwind_result_counterexample:
  "fst (mph_start True 1 100 5 (unwinding_env True) (empty_stack ())) = Return 0 \<and>
   fst (mph_prompt True 1 100 5 (Kind 0) 0 (unwinding_body True) 0 (empty_stack ()))
     = Return 55 \<and>
   fst (mph_start False 1 100 5 (unwinding_env False) (empty_stack ())) = Exit 5 0 \<and>
   fst (mph_prompt False 1 100 5 (Kind 0) 0 (unwinding_body False) 0 (empty_stack ()))
     = Return 55"
  by (simp add: unwinding_body_def unwinding_env_def unwind_with_def run_defs yield_defs
        find_steps mph_resume_unwind_def mph_unwind_fun_def mph_abort_to_def mph_abort_fun_def)

text \<open>
  C4, as the code has it, on a shadow stack whose chain of parents ends. A search for \<open>K\<close>,
  not the under sentinel, that meets an under frame for \<open>K\<close>, directly (the search in the body
  that \<^verbatim>\<open>mph_under\<close> runs) or after neutral frames, goes on behind \<open>A\<close>, the innermost frame of
  kind \<open>K\<close> outward of the under frame, at the same level. It returns, and what it returns
  is never \<open>A\<close>: it is \<^verbatim>\<open>NULL\<close> or a frame of kind \<open>K\<close> outward of \<open>A\<close>; the innermost such frame
  when only neutral frames lie between; \<^verbatim>\<open>NULL\<close> when there is none.
\<close>

theorem under_hides:
  assumes "chain (heap s) (mph_top_var s) (pre0 @ u # pre @ a # rest)"
    and "\<forall>x\<in>set pre0. neutral (heap s) K x"
    and "kind (heap s u) = MPH_UNDER" and "under (heap s u) = K" and "K \<noteq> MPH_UNDER"
    and "\<forall>x\<in>set pre. kind (heap s x) \<noteq> K" and "kind (heap s a) = K"
  shows "mph_find s K = find_loop (heap s) K (parent (heap s a)) 0 \<and>
         (\<exists>r. mph_find s K = Some r \<and> r \<noteq> Some a \<and>
              (\<forall>x. r = Some x \<longrightarrow> x \<in> set rest \<and> kind (heap s x) = K)) \<and>
         (rest = mid @ b # rest' \<and> (\<forall>x\<in>set mid. neutral (heap s) K x) \<and>
              kind (heap s b) = K \<longrightarrow> mph_find s K = Some (Some b)) \<and>
         ((\<forall>x\<in>set rest. kind (heap s x) \<noteq> K) \<longrightarrow> mph_find s K = Some None) \<and>
         (s = mph_with_handler_enter u (under_frame u K s0) \<longrightarrow>
            user (snd (mph_under t u K (\<lambda>_. observe_find K) arg s0)) = mph_find s K)"
proof -
  let ?hp = "heap s"
  have e1: "find_loop ?hp K (mph_top_var s) 0 = find_loop ?hp K (first_of (u # pre @ a # rest)) 0"
    using assms(1,2) by (rule find_loop_neutral)
  have cu: "chain ?hp (Some u) (u # pre @ a # rest)"
    using chain_append [OF assms(1)] by (simp add: first_of_def)
  have pre': "\<forall>x\<in>set pre. kind (?hp x) \<noteq> under (?hp u)" using assms(4,6) by simp
  have a': "kind (?hp a) = under (?hp u)" using assms(4,7) by simp
  have e2: "find_loop ?hp K (Some u) 0 = find_loop ?hp K (parent (?hp a)) 0"
    using cu assms(3,5) pre' a' by (rule find_loop_under)
  have eq: "mph_find s K = find_loop ?hp K (parent (?hp a)) 0"
    using e1 e2 by (simp add: mph_find_def first_of_def)
  have ca: "chain ?hp (parent (?hp a)) rest"
    using chain_after [of ?hp "mph_top_var s" "pre0 @ u # pre" a rest] assms(1) by simp
  from find_loop_total [OF ca, of K 0] obtain r
    where r: "find_loop ?hp K (parent (?hp a)) 0 = Some r"
      and rin: "\<forall>x. r = Some x \<longrightarrow> x \<in> set rest \<and> kind (?hp x) = K" by blast
  have "distinct (pre0 @ u # pre @ a # rest)" using assms(1) by (rule chain_distinct)
  hence "a \<notin> set rest" by simp
  with rin have ra: "r \<noteq> Some a" by auto
  have c2: "\<exists>r. mph_find s K = Some r \<and> r \<noteq> Some a \<and>
              (\<forall>x. r = Some x \<longrightarrow> x \<in> set rest \<and> kind (heap s x) = K)"
    using eq r rin ra by simp
  have c3: "mph_find s K = Some (Some b)"
    if "rest = mid @ b # rest'" "\<forall>x\<in>set mid. neutral ?hp K x" "kind (?hp b) = K"
  proof -
    from ca that(1) have "chain ?hp (parent (?hp a)) (mid @ b # rest')" by simp
    hence "find_loop ?hp K (parent (?hp a)) 0 = Some (Some b)"
      using that(2,3) by (rule find_loop_first)
    with eq show ?thesis by simp
  qed
  have c4: "mph_find s K = Some None" if "\<forall>x\<in>set rest. kind (?hp x) \<noteq> K"
  proof (cases r)
    case None
    with eq r show ?thesis by simp
  next
    case (Some x)
    with rin that show ?thesis by blast
  qed
  have c5: "user (snd (mph_under t u K (\<lambda>_. observe_find K) arg s0)) = mph_find s K"
    if "s = mph_with_handler_enter u (under_frame u K s0)"
    unfolding that by (rule under_body_searches)
  from eq c2 c3 c4 c5 show ?thesis by blast
qed

theorem under_hides_witness:
  "chain (heap (mph_with_handler_enter 1 (under_frame 1 (Kind 0) two_handlers)))
     (mph_top_var (mph_with_handler_enter 1 (under_frame 1 (Kind 0) two_handlers)))
     [1, 2, 3, 4] \<and>
   kind (heap two_handlers 2) = Kind 0 \<and> kind (heap two_handlers 4) = Kind 0 \<and>
   user (snd (mph_under True 1 (Kind 0) (\<lambda>_. observe_find (Kind 0)) 0 two_handlers))
     = Some (Some 4)"
proof -
  let ?s = "mph_with_handler_enter 1 (under_frame 1 (Kind 0) two_handlers)"
  have c: "chain (heap ?s) (mph_top_var ?s) ([] @ 1 # [] @ 2 # [3, 4])"
    by (simp add: two_handlers_def mph_with_handler_enter_def under_frame_def frame0_def)
  have n0: "\<forall>x\<in>set []. neutral (heap ?s) (Kind 0) x" by simp
  have ku: "kind (heap ?s 1) = MPH_UNDER" and uu: "under (heap ?s 1) = Kind 0"
    and ka: "kind (heap ?s 2) = Kind 0" and kb: "kind (heap ?s 4) = Kind 0"
    by (simp_all add: two_handlers_def mph_with_handler_enter_def under_frame_def)
  have k: "Kind 0 \<noteq> MPH_UNDER" by simp
  have n1: "\<forall>x\<in>set []. kind (heap ?s x) \<noteq> Kind 0" by simp
  have n3: "\<forall>x\<in>set [3]. neutral (heap ?s) (Kind 0) x"
    by (simp add: two_handlers_def mph_with_handler_enter_def under_frame_def neutral_def
          frame0_def)
  have sp: "[3, 4] = [3] @ 4 # ([] :: nat list)" by simp
  note th = under_hides [OF c n0 ku uu k n1 ka, of "[3]" 4 "[]" two_handlers True 0]
  from th sp n3 kb have found: "mph_find ?s (Kind 0) = Some (Some 4)" by blast
  from th have "user (snd (mph_under True 1 (Kind 0) (\<lambda>_. observe_find (Kind 0)) 0 two_handlers))
      = mph_find ?s (Kind 0)" by blast
  with found have run: "user (snd (mph_under True 1 (Kind 0) (\<lambda>_. observe_find (Kind 0)) 0
      two_handlers)) = Some (Some 4)" by simp
  have "kind (heap two_handlers 2) = Kind 0" and "kind (heap two_handlers 4) = Kind 0"
    by (simp_all add: two_handlers_def)
  with c run show ?thesis by simp
qed

text \<open>
  C4, as the claim has it, fails when a second under frame lies outward of \<open>A\<close>: in
  \<^verbatim>\<open>handler(K){ under(K){ handler(K){ under(K){ find(K) } } } }\<close> the outermost handler is of
  kind \<open>K\<close> and strictly outward of \<open>A\<close>, and the search returns \<^verbatim>\<open>NULL\<close>.
\<close>

theorem under_hides_counterexample:
  "user (snd (under_twice True (empty_stack None))) = Some None \<and>
   user (snd (under_twice False (empty_stack None))) = Some None"
  by (simp add: under_twice_def run_defs find_steps)

text \<open>
  C5. Of two nested handlers of kind \<open>K\<close> the search should return the inner one \<open>B\<close> in the
  body of \<open>B\<close>, and the outer one \<open>A\<close> once \<open>B\<close> has returned. With \<open>A\<close> a linear handler at
  address 9 and \<open>B\<close> a prompt handler at address 1: the search in the body of \<open>B\<close> returns \<open>B\<close>;
  after a \<open>B\<close> whose body does nothing it returns \<open>A\<close>; after a \<open>B\<close> whose body yielded to \<open>B\<close>
  and was resumed it returns the dead frame of \<open>B\<close>, because the yield left the parent of
  \<open>B\<close> pointing at \<open>B\<close> and the pop of \<open>B\<close> set \<^verbatim>\<open>_mph_top\<close> to that parent.
\<close>

theorem inner_yield_breaks_innermost:
  "user (snd (nested_pair t (observe_find (Kind 0)) do_nothing (empty_stack None)))
     = Some (Some 1) \<and>
   user (snd (nested_pair t do_nothing (observe_find (Kind 0)) (empty_stack None)))
     = Some (Some 9) \<and>
   user (snd (nested_pair t (yield_to_innermost t (Kind 0) (resume_with 7))
                (observe_find (Kind 0)) (empty_stack None)))
     = Some (Some 1)"
  by (simp add: nested_pair_def do_nothing_def run_defs yield_defs find_steps)

text \<open>
  C6. A yield to a prompt handler whose handler-side function consumes the token with
  \<^verbatim>\<open>mph_resume(r, q)\<close> returns \<open>q\<close> at the yield site, for \<^verbatim>\<open>mph_yield_to\<close> and for
  \<^verbatim>\<open>mph_myield_to\<close>.
\<close>

theorem yield_resume_roundtrip:
  assumes "prompt (heap s h) = Some p"
    and "fn (Resume_token p) h arg (s\<lparr>mph_top_var := parent (heap s h)\<rparr>) = (hr, s1)"
    and "call_of hr = mph_resume (Resume_token p) q"
  shows "fst (mph_yield_to has_try h fn arg s) = Return q \<and>
         fst (mph_myield_to has_try h fn arg s) = Return q"
proof -
  let ?detached = "s\<lparr>mph_top_var := parent (heap s h)\<rparr>"
  let ?yenv = "\<lparr>yhdata = h, yfun = fn, yarg = arg\<rparr>"
  have envelope: "mp_delivers (Resume_token p) (call_of hr) = Some \<lparr>result = q, unwind = False\<rparr>"
    using assms(3) by (simp add: mph_resume_def)
  let ?resumed = "s1\<lparr>mp_waiting := (p, own_value hr) # mp_waiting s1\<rparr>"
  have once: "mp_yield p (\<lambda>r. mph_yield_fun r ?yenv) ?detached
                = (Resumed \<lparr>result = q, unwind = False\<rparr>, ?resumed)"
    using assms(2) envelope by (simp add: mp_yield_def mph_yield_fun_def)
  hence multi: "mp_myield p (\<lambda>r. mph_yield_fun r ?yenv) ?detached
                = (Resumed \<lparr>result = q, unwind = False\<rparr>, ?resumed)"
    by (simp add: mp_myield_def)
  have "fst (mph_yield_to_internal has_try True h fn arg s) = Return q"
    using assms(1) once by (simp add: mph_yield_to_internal_def Let_def)
  moreover have "fst (mph_yield_to_internal has_try False h fn arg s) = Return q"
    using assms(1) multi by (simp add: mph_yield_to_internal_def Let_def)
  ultimately show ?thesis by (simp add: mph_yield_to_def mph_myield_to_def)
qed

theorem yield_resume_roundtrip_witness:
  "prompt (heap yield_site 1) = Some 5 \<and>
   call_of (fst (resume_with 7 (Resume_token 5) 1 0
                   (yield_site\<lparr>mph_top_var := parent (heap yield_site 1)\<rparr>)))
     = mph_resume (Resume_token 5) 7 \<and>
   fst (mph_yield_to True 1 (resume_with 7) 0 yield_site) = Return 7 \<and>
   fst (mph_myield_to True 1 (resume_with 7) 0 yield_site) = Return 7"
proof -
  have p: "prompt (heap yield_site 1) = Some 5" by (simp add: yield_site_def)
  have f: "resume_with 7 (Resume_token 5) 1 0 (yield_site\<lparr>mph_top_var := parent (heap yield_site 1)\<rparr>)
             = (Return_call (mph_resume (Resume_token 5) 7),
                yield_site\<lparr>mph_top_var := parent (heap yield_site 1)\<rparr>)"
    by (simp add: resume_with_def)
  have c: "call_of (Return_call (mph_resume (Resume_token 5) 7)) = mph_resume (Resume_token 5) 7"
    by simp
  from yield_resume_roundtrip [where s = yield_site and h = 1 and p = 5 and fn = "resume_with 7"
      and arg = 0 and q = 7 and has_try = True, OF p f c] p
  show ?thesis by (simp add: resume_with_def)
qed

text \<open>
  C7. On re-entry the parent of the handler should be the top of the context that resumes.
  The code restores \<^verbatim>\<open>_mph_top\<close> first and then copies it into the parent. At a yield site
  with the frames 2, 1 and 9, a yield to the prompt handler 1 runs the handler side under
  the frame 9, and after the resume the top is 2 again and the parent of 1 is 2, not 9: the
  frames 2 and 1 point at each other, and a search for the kind of 9 never returns.
\<close>

theorem yield_relinks_to_yield_top:
  "user (snd (mph_yield_to_internal t once 1 (resume_seeing_top 7) 0 yield_site)) = Some (Some 9) \<and>
   mph_top (snd (mph_yield_to_internal t once 1 (resume_seeing_top 7) 0 yield_site)) = Some 2 \<and>
   parent (heap (snd (mph_yield_to_internal t once 1 (resume_seeing_top 7) 0 yield_site)) 1) = Some 2 \<and>
   mph_find (snd (mph_yield_to_internal t once 1 (resume_seeing_top 7) 0 yield_site)) (Kind 9) = None"
proof -
  let ?s = "snd (mph_yield_to_internal t once 1 (resume_seeing_top 7) 0 yield_site)"
  have u: "user ?s = Some (Some 9)" and tp: "mph_top_var ?s = Some 2"
    and p1: "parent (heap ?s 1) = Some 2" and p2: "parent (heap ?s 2) = Some 1"
    and k1: "kind (heap ?s 1) = Kind 0" and k2: "kind (heap ?s 2) = Kind 1"
    by (simp_all add: yield_site_def yield_defs frame0_def)
  have "\<forall>a\<in>{1, 2}. neutral (heap ?s) (Kind 9) a \<and> (\<exists>b\<in>{1, 2}. parent (heap ?s a) = Some b)"
    using p1 p2 k1 k2 by (simp add: neutral_def)
  hence "find_loop (heap ?s) (Kind 9) (Some 2) 0 = None"
    by (rule find_loop_cycle) simp
  with u tp p1 show ?thesis by (simp add: mph_find_def mph_top_def)
qed

text \<open>
  C8. \<^verbatim>\<open>mph_resume_drop\<close> makes the call of \<^verbatim>\<open>mph_resume_unwind\<close>, a resume with a null result
  and the unwind flag, exactly when the substrate says the token should unwind; otherwise
  it drops the token, which resumes nothing.
\<close>

theorem resume_drop_cases:
  "(mph_resume_drop su r = mph_resume_unwind r) = su r \<and>
   mph_resume_unwind r = Mp_resume r \<lparr>result = 0, unwind = True\<rparr> \<and>
   (su r \<longrightarrow> mp_delivers r (mph_resume_drop su r) = Some \<lparr>result = 0, unwind = True\<rparr>) \<and>
   (\<not> su r \<longrightarrow> mph_resume_drop su r = Mp_resume_drop r \<and>
                 mp_delivers r (mph_resume_drop su r) = None)"
  by (simp add: mph_resume_drop_def mph_resume_unwind_def)

theorem resume_drop_cases_witness:
  "mph_resume_drop (\<lambda>_. True) (Resume_token 5) = Mp_resume (Resume_token 5) \<lparr>result = 0, unwind = True\<rparr> \<and>
   mph_resume_drop (\<lambda>_. False) (Resume_token 5) = Mp_resume_drop (Resume_token 5) \<and>
   mp_delivers (Resume_token 5) (mph_resume_drop (\<lambda>_. False) (Resume_token 5)) = None"
  using resume_drop_cases [of "\<lambda>_. True" "Resume_token 5"]
    resume_drop_cases [of "\<lambda>_. False" "Resume_token 5"]
  by simp

text \<open>
  C9. A body that reads \<^verbatim>\<open>mph_data(mph_top())\<close> sees \<^verbatim>\<open>NULL\<close> under \<^verbatim>\<open>mph_under\<close> and under
  \<^verbatim>\<open>mph_mask\<close>, the pointer of its caller under \<^verbatim>\<open>mph_linear_handler\<close>, and the data region of
  \<^verbatim>\<open>mph_start\<close> under \<^verbatim>\<open>mph_prompt\<close>.
\<close>

theorem under_mask_data_null:
  "user (snd (mph_under t a u (\<lambda>_. observe_data) arg s)) = Some 0 \<and>
   user (snd (mph_mask t a m lv (\<lambda>_. observe_data) arg s)) = Some 0 \<and>
   user (snd (mph_linear_handler t a knd hdat (\<lambda>_ _. observe_data) arg s)) = Some hdat \<and>
   user (snd (mph_prompt t a hdat p knd sz (\<lambda>_ _. observe_data) arg s)) = Some hdat"
  by (simp add: run_defs observe_data_def mph_data_def mph_top_def mph_prompt_def mp_prompt_def
        mp_leave_prompt_def mph_start_def start_frame_def)


end
